theory Spec2Isabelle
  imports Complex_Main "HOL-Library.Monad_Syntax"
begin

section \<open>Constants (node.go)\<close>

definition keyDegr :: nat where "keyDegr = 16"
definition maxNodes :: nat where "maxNodes = 2 * keyDegr"
definition minNodes :: nat where "minNodes = keyDegr"

section \<open>Go arrays, slices, copy and clear\<close>

text \<open>
  A Go array of \<open>maxNodes\<close> slots is a list of that length. Every run-time panic of the
  source (index or slice bound out of range, nil dereference, failed type assertion) is
  the value \<open>None\<close>. Node sizes and array indices are natural numbers; wherever the
  source subtracts, the model first checks that the result is not negative, because the
  source uses every such difference at once as an index or a slice bound, where a negative
  value panics.
\<close>

text \<open>\<open>xs[a:b]\<close>\<close>
definition slice :: "'a list \<Rightarrow> nat \<Rightarrow> nat \<Rightarrow> 'a list option" where
  "slice xs a b = (if a \<le> b \<and> b \<le> length xs then Some (take (b - a) (drop a xs)) else None)"

text \<open>\<open>copy(arr[off:], src)\<close>: copies as many elements as fit, memmove semantics.\<close>
definition copy_to :: "'a list \<Rightarrow> nat \<Rightarrow> 'a list \<Rightarrow> 'a list option" where
  "copy_to arr off src =
     (if off \<le> length arr
      then Some (take off arr @ take (length arr - off) src @ drop (off + length src) arr)
      else None)"

text \<open>\<open>clear(arr[a:b])\<close>\<close>
definition clear_range :: "('a::zero) list \<Rightarrow> nat \<Rightarrow> nat \<Rightarrow> 'a list option" where
  "clear_range arr a b =
     (if a \<le> b \<and> b \<le> length arr
      then Some (take a arr @ replicate (b - a) 0 @ drop b arr)
      else None)"

text \<open>\<open>arr[i]\<close> and \<open>arr[i] = x\<close>\<close>
definition aget :: "'a list \<Rightarrow> nat \<Rightarrow> 'a option" where
  "aget arr i = (if i < length arr then Some (arr ! i) else None)"

definition aset :: "'a list \<Rightarrow> nat \<Rightarrow> 'a \<Rightarrow> 'a list option" where
  "aset arr i x = (if i < length arr then Some (arr[i := x]) else None)"

text \<open>\<open>a - b\<close> used as an index: negative panics.\<close>
definition idx_sub :: "nat \<Rightarrow> nat \<Rightarrow> nat option" where
  "idx_sub a b = (if b \<le> a then Some (a - b) else None)"

section \<open>Data model\<close>

text \<open>
  Leaves are shared: their parent, their two neighbours in the leaf list, the map's
  front and back pointers and every iterator point to them. They live in a store
  (\<open>heap\<close>), addressed by their index; allocation appends. Interior nodes are referenced
  only by their parent (or by \<open>root\<close>), so they are values, and an in-place update of
  a child is written back into its parent's slot. The nil interface value is \<open>NilN\<close>.
\<close>

record ('k, 'v) leafNode =
  l_next :: "nat option"
  l_prev :: "nat option"
  l_values :: "'v list"
  l_keys :: "'k list"
  l_n :: nat

datatype 'k node =
    NilN
  | LeafN nat
  | INode (i_nodes: "'k node list") (i_keys: "'k list") (i_n: nat)

instantiation node :: (type) zero
begin
definition zero_node :: "'a node" where "zero_node = NilN"
instance ..
end

record ('k, 'v) Map =
  m_root :: "'k node"
  m_front :: nat
  m_back :: nat
  m_n :: int
  heap :: "('k, 'v) leafNode list"

record Iterator =
  it_node :: nat
  it_idx :: int

text \<open>\<open>&leafNode{}\<close>\<close>
definition new_leaf :: "('k::zero, 'v::zero) leafNode" where
  "new_leaf = \<lparr>l_next = None, l_prev = None, l_values = replicate maxNodes 0,
      l_keys = replicate maxNodes 0, l_n = 0\<rparr>"

definition get_leaf :: "('k, 'v) Map \<Rightarrow> nat \<Rightarrow> ('k, 'v) leafNode option" where
  "get_leaf m p = (if p < length (heap m) then Some (heap m ! p) else None)"

definition upd_leaf ::
  "('k, 'v) Map \<Rightarrow> nat \<Rightarrow> (('k, 'v) leafNode \<Rightarrow> ('k, 'v) leafNode) \<Rightarrow> ('k, 'v) Map option" where
  "upd_leaf m p f =
     (if p < length (heap m) then Some (m\<lparr>heap := (heap m)[p := f (heap m ! p)]\<rparr>) else None)"

text \<open>\<open>New\<close>: one empty leaf is root, front and back.\<close>
definition New :: "('k::zero, 'v::zero) Map" where
  "New = \<lparr>m_root = LeafN 0, m_front = 0, m_back = 0, m_n = 0, heap = [new_leaf]\<rparr>"

section \<open>Key search (map.go, linearSearchOrdered)\<close>

fun linearSearchFrom :: "nat \<Rightarrow> ('k::linorder) list \<Rightarrow> 'k \<Rightarrow> nat \<times> bool" where
  "linearSearchFrom i [] target = (i, False)"
| "linearSearchFrom i (key # rest) target =
     (if key = target then (i, True)
      else if key > target then (i, False)
      else linearSearchFrom (Suc i) rest target)"

definition linearSearchOrdered :: "('k::linorder) list \<Rightarrow> 'k \<Rightarrow> nat \<times> bool" where
  "linearSearchOrdered ks target = linearSearchFrom 0 ks target"

section \<open>Leaf nodes (node.go)\<close>

definition leafNode_Keys :: "('k, 'v) leafNode \<Rightarrow> 'k list option" where
  "leafNode_Keys t = slice (l_keys t) 0 (l_n t)"

definition leafNode_LastKey :: "('k, 'v) leafNode \<Rightarrow> 'k option" where
  "leafNode_LastKey t = do { i \<leftarrow> idx_sub (l_n t) 1; aget (l_keys t) i }"

definition leafNode_Split ::
  "nat \<Rightarrow> ('k::zero, 'v::zero) Map \<Rightarrow> (nat \<times> ('k, 'v) Map) option" where
  "leafNode_Split p m = do {
     t \<leftarrow> get_leaf m p;
     let q = length (heap m);
     let m1 = m\<lparr>heap := heap m @ [new_leaf\<lparr>l_next := l_next t\<rparr>]\<rparr>;
     m2 \<leftarrow> upd_leaf m1 p (\<lambda>l. l\<lparr>l_next := Some q\<rparr>);
     m3 \<leftarrow> (case l_next t of
             Some x \<Rightarrow> upd_leaf m2 x (\<lambda>l. l\<lparr>l_prev := Some q\<rparr>)
           | None \<Rightarrow> Some (if m_back m2 = p then m2\<lparr>m_back := q\<rparr> else m2));
     m4 \<leftarrow> upd_leaf m3 q (\<lambda>l. l\<lparr>l_prev := Some p\<rparr>);
     let n = l_n t;
     let rn = n div 2;
     let tn = n - rn;
     vs \<leftarrow> slice (l_values t) tn n;
     rvs \<leftarrow> copy_to (replicate maxNodes 0) 0 vs;
     tvs \<leftarrow> clear_range (l_values t) tn n;
     ks \<leftarrow> slice (l_keys t) tn n;
     rks \<leftarrow> copy_to (replicate maxNodes 0) 0 ks;
     tks \<leftarrow> clear_range (l_keys t) tn n;
     m5 \<leftarrow> upd_leaf m4 q (\<lambda>l. l\<lparr>l_values := rvs, l_keys := rks, l_n := rn\<rparr>);
     m6 \<leftarrow> upd_leaf m5 p (\<lambda>l. l\<lparr>l_values := tvs, l_keys := tks, l_n := tn\<rparr>);
     Some (q, m6)
   }"

definition leafNode_Merge ::
  "nat \<Rightarrow> nat \<Rightarrow> ('k, 'v) Map \<Rightarrow> ('k, 'v) Map option" where
  "leafNode_Merge p q m = do {
     t \<leftarrow> get_leaf m p;
     r \<leftarrow> get_leaf m q;
     rv \<leftarrow> slice (l_values r) 0 (l_n r);
     tvs \<leftarrow> copy_to (l_values t) (l_n t) rv;
     rk \<leftarrow> slice (l_keys r) 0 (l_n r);
     tks \<leftarrow> copy_to (l_keys t) (l_n t) rk;
     m1 \<leftarrow> upd_leaf m p
        (\<lambda>l. l\<lparr>l_values := tvs, l_keys := tks, l_n := l_n t + l_n r, l_next := l_next r\<rparr>);
     (case l_next r of
        Some x \<Rightarrow> upd_leaf m1 x (\<lambda>l. l\<lparr>l_prev := Some p\<rparr>)
      | None \<Rightarrow> Some (m1\<lparr>m_back := p\<rparr>))
   }"

definition leafNode_RemoveAt ::
  "('k::zero, 'v::zero) leafNode \<Rightarrow> nat \<Rightarrow> ('k, 'v) leafNode option" where
  "leafNode_RemoveAt t i = do {
     sv \<leftarrow> slice (l_values t) (i + 1) (l_n t);
     v1 \<leftarrow> copy_to (l_values t) i sv;
     n1 \<leftarrow> idx_sub (l_n t) 1;
     v2 \<leftarrow> clear_range v1 n1 (l_n t);
     sk \<leftarrow> slice (l_keys t) (i + 1) (l_n t);
     k1 \<leftarrow> copy_to (l_keys t) i sk;
     k2 \<leftarrow> clear_range k1 n1 (l_n t);
     Some (t\<lparr>l_values := v2, l_keys := k2, l_n := n1\<rparr>)
   }"

text \<open>\<open>tnode.ShiftLeft(rnode, n)\<close>: the first \<open>n\<close> entries of the right leaf move to
  the end of the left leaf.\<close>
definition leafNode_ShiftLeft ::
  "nat \<Rightarrow> nat \<Rightarrow> nat \<Rightarrow> ('k::zero, 'v::zero) Map \<Rightarrow> ('k, 'v) Map option" where
  "leafNode_ShiftLeft p q n m = do {
     t \<leftarrow> get_leaf m p;
     r \<leftarrow> get_leaf m q;
     sv \<leftarrow> slice (l_values r) 0 n;
     tvs \<leftarrow> copy_to (l_values t) (l_n t) sv;
     sk \<leftarrow> slice (l_keys r) 0 n;
     tks \<leftarrow> copy_to (l_keys t) (l_n t) sk;
     m1 \<leftarrow> upd_leaf m p (\<lambda>l. l\<lparr>l_values := tvs, l_keys := tks, l_n := l_n t + n\<rparr>);
     r1 \<leftarrow> get_leaf m1 q;
     rv \<leftarrow> slice (l_values r1) n (l_n r1);
     v1 \<leftarrow> copy_to (l_values r1) 0 rv;
     lo \<leftarrow> idx_sub (l_n r1) n;
     v2 \<leftarrow> clear_range v1 lo (l_n r1);
     rk \<leftarrow> slice (l_keys r1) n (l_n r1);
     k1 \<leftarrow> copy_to (l_keys r1) 0 rk;
     k2 \<leftarrow> clear_range k1 lo (l_n r1);
     upd_leaf m1 q (\<lambda>l. l\<lparr>l_values := v2, l_keys := k2, l_n := lo\<rparr>)
   }"

text \<open>\<open>tnode.ShiftRight(rnode, n)\<close>: the last \<open>n\<close> entries of the left leaf move to
  the front of the right leaf.\<close>
definition leafNode_ShiftRight ::
  "nat \<Rightarrow> nat \<Rightarrow> nat \<Rightarrow> ('k::zero, 'v::zero) Map \<Rightarrow> ('k, 'v) Map option" where
  "leafNode_ShiftRight p q n m = do {
     r \<leftarrow> get_leaf m q;
     sv \<leftarrow> slice (l_values r) 0 (l_n r);
     v1 \<leftarrow> copy_to (l_values r) n sv;
     sk \<leftarrow> slice (l_keys r) 0 (l_n r);
     k1 \<leftarrow> copy_to (l_keys r) n sk;
     m1 \<leftarrow> upd_leaf m q (\<lambda>l. l\<lparr>l_values := v1, l_keys := k1, l_n := l_n r + n\<rparr>);
     t \<leftarrow> get_leaf m1 p;
     r1 \<leftarrow> get_leaf m1 q;
     lo \<leftarrow> idx_sub (l_n t) n;
     tv \<leftarrow> slice (l_values t) lo (l_n t);
     v2 \<leftarrow> copy_to (l_values r1) 0 tv;
     tvs \<leftarrow> clear_range (l_values t) lo (l_n t);
     tk \<leftarrow> slice (l_keys t) lo (l_n t);
     k2 \<leftarrow> copy_to (l_keys r1) 0 tk;
     tks \<leftarrow> clear_range (l_keys t) lo (l_n t);
     m2 \<leftarrow> upd_leaf m1 q (\<lambda>l. l\<lparr>l_values := v2, l_keys := k2\<rparr>);
     upd_leaf m2 p (\<lambda>l. l\<lparr>l_values := tvs, l_keys := tks, l_n := lo\<rparr>)
   }"

definition leafNode_InsertAt ::
  "('k, 'v) leafNode \<Rightarrow> nat \<Rightarrow> 'k \<Rightarrow> 'v \<Rightarrow> ('k, 'v) leafNode option" where
  "leafNode_InsertAt t idx key val = do {
     sv \<leftarrow> slice (l_values t) idx (l_n t);
     v1 \<leftarrow> copy_to (l_values t) (idx + 1) sv;
     sk \<leftarrow> slice (l_keys t) idx (l_n t);
     k1 \<leftarrow> copy_to (l_keys t) (idx + 1) sk;
     k2 \<leftarrow> aset k1 idx key;
     v2 \<leftarrow> aset v1 idx val;
     Some (t\<lparr>l_values := v2, l_keys := k2, l_n := l_n t + 1\<rparr>)
   }"

section \<open>Interior nodes (node.go)\<close>

definition internalNode_Split ::
  "'k::zero node list \<Rightarrow> 'k list \<Rightarrow> nat \<Rightarrow> ('k node \<times> 'k node) option" where
  "internalNode_Split cs ks n = do {
     let rn = n div 2;
     let tn = n - rn;
     sc \<leftarrow> slice cs tn n;
     rcs \<leftarrow> copy_to (replicate maxNodes 0) 0 sc;
     tcs \<leftarrow> clear_range cs tn n;
     sk \<leftarrow> slice ks tn n;
     rks \<leftarrow> copy_to (replicate maxNodes 0) 0 sk;
     tks \<leftarrow> clear_range ks tn n;
     Some (INode tcs tks tn, INode rcs rks rn)
   }"

definition internalNode_Merge ::
  "'k node list \<Rightarrow> 'k list \<Rightarrow> nat \<Rightarrow> 'k node list \<Rightarrow> 'k list \<Rightarrow> nat \<Rightarrow> 'k node option" where
  "internalNode_Merge cs ks n rcs rks rn = do {
     sc \<leftarrow> slice rcs 0 rn;
     cs1 \<leftarrow> copy_to cs n sc;
     sk \<leftarrow> slice rks 0 rn;
     ks1 \<leftarrow> copy_to ks n sk;
     Some (INode cs1 ks1 (n + rn))
   }"

definition internalNode_RemoveAt ::
  "'k::zero node list \<Rightarrow> 'k list \<Rightarrow> nat \<Rightarrow> nat \<Rightarrow> 'k node option" where
  "internalNode_RemoveAt cs ks n i = do {
     sc \<leftarrow> slice cs (i + 1) n;
     c1 \<leftarrow> copy_to cs i sc;
     n1 \<leftarrow> idx_sub n 1;
     c2 \<leftarrow> clear_range c1 n1 n;
     sk \<leftarrow> slice ks (i + 1) n;
     k1 \<leftarrow> copy_to ks i sk;
     k2 \<leftarrow> clear_range k1 n1 n;
     Some (INode c2 k2 n1)
   }"

text \<open>\<open>inode.ShiftLeft(rnode, k)\<close>: returns the left and the right node.\<close>
definition internalNode_ShiftLeft ::
  "'k::zero node list \<Rightarrow> 'k list \<Rightarrow> nat \<Rightarrow> 'k node list \<Rightarrow> 'k list \<Rightarrow> nat \<Rightarrow> nat
     \<Rightarrow> ('k node \<times> 'k node) option" where
  "internalNode_ShiftLeft cs ks n rcs rks rn k = do {
     sc \<leftarrow> slice rcs 0 k;
     cs1 \<leftarrow> copy_to cs n sc;
     sk \<leftarrow> slice rks 0 k;
     ks1 \<leftarrow> copy_to ks n sk;
     rc \<leftarrow> slice rcs k rn;
     c1 \<leftarrow> copy_to rcs 0 rc;
     lo \<leftarrow> idx_sub rn k;
     c2 \<leftarrow> clear_range c1 lo rn;
     rk \<leftarrow> slice rks k rn;
     k1 \<leftarrow> copy_to rks 0 rk;
     k2 \<leftarrow> clear_range k1 lo rn;
     Some (INode cs1 ks1 (n + k), INode c2 k2 lo)
   }"

text \<open>\<open>inode.ShiftRight(rnode, k)\<close>: returns the left and the right node.\<close>
definition internalNode_ShiftRight ::
  "'k::zero node list \<Rightarrow> 'k list \<Rightarrow> nat \<Rightarrow> 'k node list \<Rightarrow> 'k list \<Rightarrow> nat \<Rightarrow> nat
     \<Rightarrow> ('k node \<times> 'k node) option" where
  "internalNode_ShiftRight cs ks n rcs rks rn k = do {
     sc \<leftarrow> slice rcs 0 rn;
     c1 \<leftarrow> copy_to rcs k sc;
     sk \<leftarrow> slice rks 0 rn;
     k1 \<leftarrow> copy_to rks k sk;
     lo \<leftarrow> idx_sub n k;
     tc \<leftarrow> slice cs lo n;
     c2 \<leftarrow> copy_to c1 0 tc;
     tcs \<leftarrow> clear_range cs lo n;
     tk \<leftarrow> slice ks lo n;
     k2 \<leftarrow> copy_to k1 0 tk;
     tks \<leftarrow> clear_range ks lo n;
     Some (INode tcs tks lo, INode c2 k2 (rn + k))
   }"

section \<open>The node interface (node.go): dispatch on the dynamic type\<close>

definition node_Size :: "('k, 'v) Map \<Rightarrow> 'k node \<Rightarrow> nat option" where
  "node_Size m nd = (case nd of
       NilN \<Rightarrow> None
     | LeafN p \<Rightarrow> map_option l_n (get_leaf m p)
     | INode cs ks n \<Rightarrow> Some n)"

definition node_LastKey :: "('k, 'v) Map \<Rightarrow> 'k node \<Rightarrow> 'k option" where
  "node_LastKey m nd = (case nd of
       NilN \<Rightarrow> None
     | LeafN p \<Rightarrow> do { t \<leftarrow> get_leaf m p; leafNode_LastKey t }
     | INode cs ks n \<Rightarrow> do { i \<leftarrow> idx_sub n 1; aget ks i })"

definition node_IsFull :: "('k, 'v) Map \<Rightarrow> 'k node \<Rightarrow> bool option" where
  "node_IsFull m nd = map_option (\<lambda>n. n = maxNodes) (node_Size m nd)"

text \<open>\<open>lnode.Split(m)\<close>: the receiver after the call, the new right sibling, the map.\<close>
definition node_Split ::
  "'k::zero node \<Rightarrow> ('k, 'v::zero) Map \<Rightarrow> ('k node \<times> 'k node \<times> ('k, 'v) Map) option" where
  "node_Split nd m = (case nd of
       NilN \<Rightarrow> None
     | LeafN p \<Rightarrow> do { (q, m') \<leftarrow> leafNode_Split p m; Some (LeafN p, LeafN q, m') }
     | INode cs ks n \<Rightarrow> do { (l, r) \<leftarrow> internalNode_Split cs ks n; Some (l, r, m) })"

text \<open>\<open>lnode.Merge(rnode, m)\<close>: the receiver after the call and the map. The type
  assertion on the argument panics when the two nodes are of different kinds.\<close>
definition node_Merge ::
  "'k node \<Rightarrow> 'k node \<Rightarrow> ('k, 'v) Map \<Rightarrow> ('k node \<times> ('k, 'v) Map) option" where
  "node_Merge l r m = (case (l, r) of
       (LeafN p, LeafN q) \<Rightarrow> do { m' \<leftarrow> leafNode_Merge p q m; Some (LeafN p, m') }
     | (INode cs ks n, INode rcs rks rn) \<Rightarrow>
         do { l' \<leftarrow> internalNode_Merge cs ks n rcs rks rn; Some (l', m) }
     | _ \<Rightarrow> None)"

definition node_ShiftLeft ::
  "'k::zero node \<Rightarrow> 'k node \<Rightarrow> nat \<Rightarrow> ('k, 'v::zero) Map
     \<Rightarrow> ('k node \<times> 'k node \<times> ('k, 'v) Map) option" where
  "node_ShiftLeft l r k m = (case (l, r) of
       (LeafN p, LeafN q) \<Rightarrow> do { m' \<leftarrow> leafNode_ShiftLeft p q k m; Some (LeafN p, LeafN q, m') }
     | (INode cs ks n, INode rcs rks rn) \<Rightarrow>
         do { (l', r') \<leftarrow> internalNode_ShiftLeft cs ks n rcs rks rn k; Some (l', r', m) }
     | _ \<Rightarrow> None)"

definition node_ShiftRight ::
  "'k::zero node \<Rightarrow> 'k node \<Rightarrow> nat \<Rightarrow> ('k, 'v::zero) Map
     \<Rightarrow> ('k node \<times> 'k node \<times> ('k, 'v) Map) option" where
  "node_ShiftRight l r k m = (case (l, r) of
       (LeafN p, LeafN q) \<Rightarrow> do { m' \<leftarrow> leafNode_ShiftRight p q k m; Some (LeafN p, LeafN q, m') }
     | (INode cs ks n, INode rcs rks rn) \<Rightarrow>
         do { (l', r') \<leftarrow> internalNode_ShiftRight cs ks n rcs rks rn k; Some (l', r', m) }
     | _ \<Rightarrow> None)"

text \<open>\<open>inode.SplitAt(idx, m)\<close>\<close>
definition internalNode_SplitAt ::
  "'k::zero node list \<Rightarrow> 'k list \<Rightarrow> nat \<Rightarrow> nat \<Rightarrow> ('k, 'v::zero) Map
     \<Rightarrow> ('k node \<times> ('k, 'v) Map) option" where
  "internalNode_SplitAt cs ks n idx m = do {
     lnode \<leftarrow> aget cs idx;
     (lnode', rnode, m') \<leftarrow> node_Split lnode m;
     cs0 \<leftarrow> aset cs idx lnode';
     sc \<leftarrow> slice cs0 (idx + 1) n;
     cs1 \<leftarrow> copy_to cs0 (idx + 2) sc;
     sk \<leftarrow> slice ks idx n;
     ks1 \<leftarrow> copy_to ks (idx + 1) sk;
     cs2 \<leftarrow> aset cs1 (idx + 1) rnode;
     lk \<leftarrow> node_LastKey m' lnode';
     ks2 \<leftarrow> aset ks1 idx lk;
     Some (INode cs2 ks2 (n + 1), m')
   }"

section \<open>Termination measure for the descents\<close>

fun depth :: "'k node \<Rightarrow> nat" where
  "depth NilN = 0"
| "depth (LeafN p) = 0"
| "depth (INode cs ks n) = Suc (Max (insert 0 (depth ` set cs)))"

section \<open>Iterator (iterator.go)\<close>

definition Iterator_Key :: "('k, 'v) Map \<Rightarrow> Iterator \<Rightarrow> 'k option" where
  "Iterator_Key m it = do {
     t \<leftarrow> get_leaf m (it_node it);
     if it_idx it < 0 then None else aget (l_keys t) (nat (it_idx it))
   }"

definition Iterator_Value :: "('k, 'v) Map \<Rightarrow> Iterator \<Rightarrow> 'v option" where
  "Iterator_Value m it = do {
     t \<leftarrow> get_leaf m (it_node it);
     if it_idx it < 0 then None else aget (l_values t) (nat (it_idx it))
   }"

definition Iterator_Begin :: "('k, 'v) Map \<Rightarrow> Iterator \<Rightarrow> bool option" where
  "Iterator_Begin m it = do {
     t \<leftarrow> get_leaf m (it_node it);
     Some (it_idx it = 0 \<and> l_prev t = None)
   }"

definition Iterator_End :: "('k, 'v) Map \<Rightarrow> Iterator \<Rightarrow> bool option" where
  "Iterator_End m it = do {
     t \<leftarrow> get_leaf m (it_node it);
     Some (int (l_n t) = it_idx it \<and> l_next t = None)
   }"

definition Iterator_Next :: "('k, 'v) Map \<Rightarrow> Iterator \<Rightarrow> Iterator option" where
  "Iterator_Next m it = do {
     t \<leftarrow> get_leaf m (it_node it);
     let idx = it_idx it + 1;
     (case l_next t of
        Some x \<Rightarrow> if idx = int (l_n t) then Some \<lparr>it_node = x, it_idx = 0\<rparr>
                  else Some \<lparr>it_node = it_node it, it_idx = idx\<rparr>
      | None \<Rightarrow> Some \<lparr>it_node = it_node it, it_idx = idx\<rparr>)
   }"

definition Iterator_Prev :: "('k, 'v) Map \<Rightarrow> Iterator \<Rightarrow> Iterator option" where
  "Iterator_Prev m it =
     (if it_idx it = 0 then do {
        t \<leftarrow> get_leaf m (it_node it);
        x \<leftarrow> l_prev t;
        pl \<leftarrow> get_leaf m x;
        Some \<lparr>it_node = x, it_idx = int (l_n pl) - 1\<rparr>
      } else Some \<lparr>it_node = it_node it, it_idx = it_idx it - 1\<rparr>)"

section \<open>Map (map.go)\<close>

definition Map_Begin :: "('k, 'v) Map \<Rightarrow> Iterator" where
  "Map_Begin m = \<lparr>it_node = m_front m, it_idx = 0\<rparr>"

definition Map_End :: "('k, 'v) Map \<Rightarrow> Iterator option" where
  "Map_End m = do {
     b \<leftarrow> get_leaf m (m_back m);
     Some \<lparr>it_node = m_back m, it_idx = int (l_n b)\<rparr>
   }"

definition Map_Len :: "('k, 'v) Map \<Rightarrow> int" where
  "Map_Len m = m_n m"

definition Map_Clear :: "('k::zero, 'v::zero) Map \<Rightarrow> ('k, 'v) Map" where
  "Map_Clear m =
     (if m_n m = 0 then m
      else (let q = length (heap m) in
            m\<lparr>heap := heap m @ [new_leaf], m_root := LeafN q, m_front := q, m_back := q,
              m_n := 0\<rparr>))"

definition splitRoot :: "('k::zero, 'v::zero) Map \<Rightarrow> ('k, 'v) Map option" where
  "splitRoot m = do {
     (lnode, rnode, m1) \<leftarrow> node_Split (m_root m) m;
     k0 \<leftarrow> node_LastKey m1 lnode;
     k1 \<leftarrow> node_LastKey m1 rnode;
     Some (m1\<lparr>m_root := INode ((replicate maxNodes 0)[0 := lnode, 1 := rnode])
                              ((replicate maxNodes 0)[0 := k0, 1 := k1]) 2\<rparr>)
   }"

text \<open>The tail of \<open>Insert\<close> at a leaf reached by the inner (extend) loop.\<close>
definition leafAppend ::
  "nat \<Rightarrow> 'k \<Rightarrow> 'v \<Rightarrow> ('k, 'v) Map \<Rightarrow> (Iterator \<times> ('k, 'v) Map) option" where
  "leafAppend p key val m = do {
     t \<leftarrow> get_leaf m p;
     let idx = l_n t;
     t' \<leftarrow> leafNode_InsertAt t idx key val;
     m1 \<leftarrow> upd_leaf m p (\<lambda>_. t');
     Some (\<lparr>it_node = p, it_idx = int idx\<rparr>, m1\<lparr>m_n := m_n m1 + 1\<rparr>)
   }"

text \<open>The leaf branch of the outer loop of \<open>Insert\<close>.\<close>
definition leafInsert ::
  "nat \<Rightarrow> ('k::linorder) \<Rightarrow> ('v::zero) \<Rightarrow> ('k, 'v) Map
     \<Rightarrow> (Iterator \<times> 'v \<times> bool \<times> ('k, 'v) Map) option" where
  "leafInsert p key val m = do {
     t \<leftarrow> get_leaf m p;
     ks \<leftarrow> leafNode_Keys t;
     let (i, ok) = linearSearchOrdered ks key;
     if ok then do {
       oldValue \<leftarrow> aget (l_values t) i;
       vs \<leftarrow> aset (l_values t) i val;
       m1 \<leftarrow> upd_leaf m p (\<lambda>l. l\<lparr>l_values := vs\<rparr>);
       Some (\<lparr>it_node = p, it_idx = int i\<rparr>, oldValue, True, m1)
     } else do {
       t' \<leftarrow> leafNode_InsertAt t i key val;
       m1 \<leftarrow> upd_leaf m p (\<lambda>_. t');
       Some (\<lparr>it_node = p, it_idx = int i\<rparr>, 0, False, m1\<lparr>m_n := m_n m1 + 1\<rparr>)
     }
   }"

text \<open>Bounds on \<open>depth\<close>, for the termination proofs below.\<close>

definition dle :: "nat \<Rightarrow> 'k node list \<Rightarrow> bool" where
  "dle d cs = (\<forall>c \<in> set cs. depth c \<le> d)"

lemma depth_INode_le_iff: "depth (INode cs ks n) \<le> Suc d \<longleftrightarrow> dle d cs"
  by (simp add: dle_def)

lemma dle_self: "dle (Max (insert 0 (depth ` set cs))) cs"
  by (simp add: dle_def)

lemma dle_depth: "dle d cs \<Longrightarrow> depth (INode cs ks n) \<le> Suc d"
  by (simp add: dle_def)

lemma depth_dle: "depth (INode cs ks n) \<le> d \<Longrightarrow> dle (d - 1) cs"
  by (cases d) (simp_all add: dle_def)

lemma dle_slice: "slice xs a b = Some ys \<Longrightarrow> dle d xs \<Longrightarrow> dle d ys"
  by (auto simp: slice_def dle_def split: if_splits dest!: in_set_takeD in_set_dropD)

lemma dle_copy: "copy_to arr off src = Some ys \<Longrightarrow> dle d arr \<Longrightarrow> dle d src \<Longrightarrow> dle d ys"
  by (auto simp: copy_to_def dle_def split: if_splits dest!: in_set_takeD in_set_dropD)

lemma dle_clear: "clear_range arr a b = Some ys \<Longrightarrow> dle d arr \<Longrightarrow> dle d ys"
  by (auto simp: clear_range_def dle_def zero_node_def split: if_splits
      dest!: in_set_takeD in_set_dropD)

lemma dle_aset: "aset arr i x = Some ys \<Longrightarrow> dle d arr \<Longrightarrow> depth x \<le> d \<Longrightarrow> dle d ys"
proof -
  assume a: "aset arr i x = Some ys" and b: "dle d arr" and c: "depth x \<le> d"
  from a have "ys = arr[i := x]" by (simp add: aset_def split: if_splits)
  then have "set ys \<subseteq> insert x (set arr)" by (simp add: set_update_subset_insert)
  with b c show ?thesis unfolding dle_def by blast
qed

lemma dle_aget: "aget arr i = Some x \<Longrightarrow> dle d arr \<Longrightarrow> depth x \<le> d"
  by (auto simp: aget_def dle_def split: if_splits)

lemma dle_replicate: "dle d (replicate k 0)"
  by (simp add: dle_def zero_node_def)

lemma dle_update: "dle d arr \<Longrightarrow> depth x \<le> d \<Longrightarrow> dle d (arr[i := x])"
  unfolding dle_def using set_update_subset_insert[of arr i x] by blast

lemma internalNode_Split_dle:
  assumes "internalNode_Split cs ks n = Some (l, r)" and "dle d cs"
  shows "depth l \<le> Suc d \<and> depth r \<le> Suc d"
  using assms
  by (auto simp: internalNode_Split_def Let_def split: Option.bind_splits
      intro!: dle_depth intro: dle_clear dle_copy dle_slice dle_replicate)

lemma node_Split_depth:
  assumes "node_Split nd m = Some (l, r, m')"
  shows "depth l \<le> depth nd \<and> depth r \<le> depth nd"
proof (cases nd)
  case NilN
  with assms show ?thesis by (simp add: node_Split_def)
next
  case (LeafN p)
  with assms show ?thesis by (auto simp: node_Split_def split: Option.bind_splits)
next
  case (INode cs ks n)
  with assms have "internalNode_Split cs ks n = Some (l, r)"
    by (auto simp: node_Split_def split: Option.bind_splits)
  from internalNode_Split_dle[OF this dle_self] show ?thesis by (simp add: INode)
qed

lemma internalNode_SplitAt_dle:
  assumes "internalNode_SplitAt cs ks n idx m = Some (INode cs' ks' n', m')" and d: "dle d cs"
  shows "dle d cs'"
proof -
  from assms obtain lnode lnode' rnode cs0 sc cs1 where
    g: "aget cs idx = Some lnode" and sp: "node_Split lnode m = Some (lnode', rnode, m')"
    and cs0: "aset cs idx lnode' = Some cs0" and sc: "slice cs0 (idx + 1) n = Some sc"
    and cs1: "copy_to cs0 (idx + 2) sc = Some cs1" and cs2: "aset cs1 (idx + 1) rnode = Some cs'"
    by (auto simp: internalNode_SplitAt_def split: Option.bind_splits)
  have ln: "depth lnode \<le> d" using g d by (rule dle_aget)
  have l': "depth lnode' \<le> d" and r: "depth rnode \<le> d"
    using node_Split_depth[OF sp] ln by auto
  have c0: "dle d cs0" using cs0 d l' by (rule dle_aset)
  have c1: "dle d cs1" using cs1 c0 dle_slice[OF sc c0] by (rule dle_copy)
  show ?thesis using cs2 c1 r by (rule dle_aset)
qed

lemma node_Merge_depth:
  assumes "node_Merge l r m = Some (l', m')" "depth l \<le> d" "depth r \<le> d"
  shows "depth l' \<le> d"
proof (cases d)
  case 0
  with assms show ?thesis
    by (auto simp: node_Merge_def split: node.splits Option.bind_splits)
next
  case (Suc e)
  with assms show ?thesis
    by (auto simp: node_Merge_def internalNode_Merge_def depth_INode_le_iff
        simp del: depth.simps(3)
        split: node.splits Option.bind_splits)
       (blast intro: dle_copy dle_slice dle_clear)+
qed

lemma node_ShiftLeft_depth:
  assumes "node_ShiftLeft l r k m = Some (l', r', m')" "depth l \<le> d" "depth r \<le> d"
  shows "depth l' \<le> d \<and> depth r' \<le> d"
proof (cases d)
  case 0
  with assms show ?thesis
    by (auto simp: node_ShiftLeft_def split: node.splits Option.bind_splits)
next
  case (Suc e)
  with assms show ?thesis
    by (auto simp: node_ShiftLeft_def internalNode_ShiftLeft_def depth_INode_le_iff
        simp del: depth.simps(3)
        split: node.splits Option.bind_splits)
       (blast intro: dle_copy dle_slice dle_clear)+
qed

lemma node_ShiftRight_depth:
  assumes "node_ShiftRight l r k m = Some (l', r', m')" "depth l \<le> d" "depth r \<le> d"
  shows "depth l' \<le> d \<and> depth r' \<le> d"
proof (cases d)
  case 0
  with assms show ?thesis
    by (auto simp: node_ShiftRight_def split: node.splits Option.bind_splits)
next
  case (Suc e)
  with assms show ?thesis
    by (auto simp: node_ShiftRight_def internalNode_ShiftRight_def depth_INode_le_iff
        simp del: depth.simps(3)
        split: node.splits Option.bind_splits)
       (blast intro: dle_copy dle_slice dle_clear)+
qed


function insertExtend ::
  "('k::zero) node \<Rightarrow> 'k \<Rightarrow> ('v::zero) \<Rightarrow> ('k, 'v) Map
     \<Rightarrow> ('k node \<times> Iterator \<times> ('k, 'v) Map) option" where
  "insertExtend (INode cs ks n) key val m = do {
       last \<leftarrow> idx_sub n 1;
       c \<leftarrow> aget cs last;
       full \<leftarrow> node_IsFull m c;
       (inode1, m1) \<leftarrow> (if full then internalNode_SplitAt cs ks n last m
                         else Some (INode cs ks n, m));
       (case inode1 of
          INode cs1 ks1 n1 \<Rightarrow> do {
            last1 \<leftarrow> idx_sub n1 1;
            c1 \<leftarrow> aget cs1 last1;
            ks2 \<leftarrow> aset ks1 last1 key;
            (case c1 of
               INode _ _ _ \<Rightarrow> do {
                 (c2, it, m2) \<leftarrow> insertExtend c1 key val m1;
                 cs2 \<leftarrow> aset cs1 last1 c2;
                 Some (INode cs2 ks2 n1, it, m2)
               }
             | LeafN p \<Rightarrow> do {
                 (it, m2) \<leftarrow> leafAppend p key val m1;
                 Some (INode cs1 ks2 n1, it, m2)
               }
             | NilN \<Rightarrow> None)
          }
        | _ \<Rightarrow> None)
     }"
| "insertExtend (LeafN p) key val m = None"
| "insertExtend NilN key val m = None"
  by pat_completeness auto
termination
proof (relation "measure (\<lambda>(nd, key, val, m). depth nd)", goal_cases)
  case 1
  show ?case by simp
next
  case (2 cs ks n key val m last c full x inode1 m1 cs1 ks1 n1 last1 c1 ks2 a b d)
  define nd where "nd = INode cs ks n"
  have "dle (Max (insert 0 (depth ` set cs))) cs1"
  proof (cases full)
    case True
    with 2 have "internalNode_SplitAt cs ks n last m = Some (INode cs1 ks1 n1, m1)" by auto
    then show ?thesis using dle_self by (rule internalNode_SplitAt_dle)
  next
    case False
    with 2 show ?thesis using dle_self[of cs] by auto
  qed
  moreover have "aget cs1 last1 = Some c1" using 2 by simp
  ultimately have "depth c1 \<le> Max (insert 0 (depth ` set cs))" by (rule dle_aget[rotated])
  moreover have "depth nd = Suc (Max (insert 0 (depth ` set cs)))" by (simp add: nd_def)
  ultimately have "depth c1 < depth nd" by linarith
  then show ?case by (simp add: nd_def)
qed

function insertNode ::
  "('k::{linorder,zero}) node \<Rightarrow> 'k \<Rightarrow> ('v::zero) \<Rightarrow> ('k, 'v) Map
     \<Rightarrow> ('k node \<times> Iterator \<times> 'v \<times> bool \<times> ('k, 'v) Map) option" where
  "insertNode NilN key val m = None"
| "insertNode (LeafN p) key val m = do {
       (it, old, rep, m1) \<leftarrow> leafInsert p key val m;
       Some (LeafN p, it, old, rep, m1)
     }"
| "insertNode (INode cs ks n) key val m = do {
       sk \<leftarrow> slice ks 0 n;
       let (i, _) = linearSearchOrdered sk key;
       if i = n then do {
         (nd', it, m1) \<leftarrow> insertExtend (INode cs ks n) key val m;
         Some (nd', it, 0, False, m1)
       } else do {
         descNode \<leftarrow> aget cs i;
         full \<leftarrow> node_IsFull m descNode;
         if full then do {
           (inode1, m1) \<leftarrow> internalNode_SplitAt cs ks n i m;
           (case inode1 of
              INode cs1 ks1 n1 \<Rightarrow> do {
                ki \<leftarrow> aget ks1 i;
                let j = (if ki < key then i + 1 else i);
                d \<leftarrow> aget cs1 j;
                (d', it, old, rep, m2) \<leftarrow> insertNode d key val m1;
                cs2 \<leftarrow> aset cs1 j d';
                Some (INode cs2 ks1 n1, it, old, rep, m2)
              }
            | _ \<Rightarrow> None)
         } else do {
           (d', it, old, rep, m1) \<leftarrow> insertNode descNode key val m;
           cs1 \<leftarrow> aset cs i d';
           Some (INode cs1 ks n, it, old, rep, m1)
         }
       }
     }"
  by pat_completeness auto
termination
proof (relation "measure (\<lambda>(nd, key, val, m). depth nd)", goal_cases)
  case 1
  show ?case by simp
next
  case (2 cs ks n key val m sk x i y descNode full z inode1 m1 cs1 ks1 n1 ki j d)
  define nd where "nd = INode cs ks n"
  have "internalNode_SplitAt cs ks n i m = Some (INode cs1 ks1 n1, m1)" using 2 by auto
  then have "dle (Max (insert 0 (depth ` set cs))) cs1"
    using dle_self by (rule internalNode_SplitAt_dle)
  moreover have "aget cs1 j = Some d" using 2 by simp
  ultimately have "depth d \<le> Max (insert 0 (depth ` set cs))" by (rule dle_aget[rotated])
  moreover have "depth nd = Suc (Max (insert 0 (depth ` set cs)))" by (simp add: nd_def)
  ultimately have "depth d < depth nd" by linarith
  then show ?case by (simp add: nd_def)
next
  case (3 cs ks n key val m sk x i y descNode full)
  define nd where "nd = INode cs ks n"
  have "depth descNode \<le> Max (insert 0 (depth ` set cs))"
    using 3 dle_aget[OF _ dle_self] by blast
  moreover have "depth nd = Suc (Max (insert 0 (depth ` set cs)))" by (simp add: nd_def)
  ultimately have "depth descNode < depth nd" by linarith
  then show ?case by (simp add: nd_def)
qed

definition Map_Insert ::
  "('k::{linorder,zero}, 'v::zero) Map \<Rightarrow> 'k \<Rightarrow> 'v
     \<Rightarrow> (Iterator \<times> 'v \<times> bool \<times> ('k, 'v) Map) option" where
  "Map_Insert m key val = do {
     full \<leftarrow> node_IsFull m (m_root m);
     m0 \<leftarrow> (if full then splitRoot m else Some m);
     (r, it, old, rep, m1) \<leftarrow> insertNode (m_root m0) key val m0;
     Some (it, old, rep, m1\<lparr>m_root := r\<rparr>)
   }"


text \<open>\<open>Find\<close>. The model threads the map through the descent like every other
  method with a pointer receiver and returns it with the result.\<close>
function findNode ::
  "('k::linorder) node \<Rightarrow> 'k \<Rightarrow> ('k, 'v::zero) Map \<Rightarrow> (('v \<times> bool) \<times> ('k, 'v) Map) option" where
  "findNode NilN key m = None"
| "findNode (LeafN p) key m = do {
       t \<leftarrow> get_leaf m p;
       ks \<leftarrow> leafNode_Keys t;
       let (i, ok) = linearSearchOrdered ks key;
       if \<not> ok then Some ((0, False), m)
       else do { v \<leftarrow> aget (l_values t) i; Some ((v, True), m) }
     }"
| "findNode (INode cs ks n) key m = do {
       n1 \<leftarrow> idx_sub n 1;
       sk \<leftarrow> slice ks 0 n1;
       let (i, _) = linearSearchOrdered sk key;
       c \<leftarrow> aget cs i;
       findNode c key m
     }"
  by pat_completeness auto
termination
proof (relation "measure (\<lambda>(nd, key, m). depth nd)", goal_cases)
  case 1
  show ?case by simp
next
  case (2 cs ks n key m n1 sk x i y c)
  define nd where "nd = INode cs ks n"
  have "depth c \<le> Max (insert 0 (depth ` set cs))"
    using 2 dle_aget[OF _ dle_self] by blast
  moreover have "depth nd = Suc (Max (insert 0 (depth ` set cs)))" by (simp add: nd_def)
  ultimately have "depth c < depth nd" by linarith
  then show ?case by (simp add: nd_def)
qed

definition Map_Find ::
  "('k::linorder, 'v::zero) Map \<Rightarrow> 'k \<Rightarrow> (('v \<times> bool) \<times> ('k, 'v) Map) option" where
  "Map_Find m key = findNode (m_root m) key m"

function lowerBoundNode ::
  "('k::linorder) node \<Rightarrow> 'k \<Rightarrow> ('k, 'v) Map \<Rightarrow> (Iterator \<times> ('k, 'v) Map) option" where
  "lowerBoundNode NilN key m = None"
| "lowerBoundNode (LeafN p) key m = do {
       t \<leftarrow> get_leaf m p;
       ks \<leftarrow> leafNode_Keys t;
       let (i, _) = linearSearchOrdered ks key;
       (case l_next t of
          Some x \<Rightarrow> if i = l_n t then Some (\<lparr>it_node = x, it_idx = 0\<rparr>, m)
                    else Some (\<lparr>it_node = p, it_idx = int i\<rparr>, m)
        | None \<Rightarrow> Some (\<lparr>it_node = p, it_idx = int i\<rparr>, m))
     }"
| "lowerBoundNode (INode cs ks n) key m = do {
       n1 \<leftarrow> idx_sub n 1;
       sk \<leftarrow> slice ks 0 n1;
       let (i, _) = linearSearchOrdered sk key;
       c \<leftarrow> aget cs i;
       lowerBoundNode c key m
     }"
  by pat_completeness auto
termination
proof (relation "measure (\<lambda>(nd, key, m). depth nd)", goal_cases)
  case 1
  show ?case by simp
next
  case (2 cs ks n key m n1 sk x i y c)
  define nd where "nd = INode cs ks n"
  have "depth c \<le> Max (insert 0 (depth ` set cs))"
    using 2 dle_aget[OF _ dle_self] by blast
  moreover have "depth nd = Suc (Max (insert 0 (depth ` set cs)))" by (simp add: nd_def)
  ultimately have "depth c < depth nd" by linarith
  then show ?case by (simp add: nd_def)
qed

definition Map_LowerBound ::
  "('k::linorder, 'v) Map \<Rightarrow> 'k \<Rightarrow> (Iterator \<times> ('k, 'v) Map) option" where
  "Map_LowerBound m key = lowerBoundNode (m_root m) key m"

text \<open>\<open>m.mergeNode(node, i)\<close>. \<open>isroot\<close> is the test \<open>m.root == node\<close>. The result is the
  node after the call (\<open>None\<close> when \<open>m.root\<close> was replaced by the merged child and the
  node dropped), the merged child and the map.\<close>
definition mergeNode ::
  "bool \<Rightarrow> ('k::zero) node list \<Rightarrow> 'k list \<Rightarrow> nat \<Rightarrow> nat \<Rightarrow> ('k, 'v) Map
     \<Rightarrow> ('k node option \<times> 'k node \<times> ('k, 'v) Map) option" where
  "mergeNode isroot cs ks n i m = do {
     lnode \<leftarrow> aget cs i;
     rnode \<leftarrow> aget cs (i + 1);
     (lnode', m1) \<leftarrow> node_Merge lnode rnode m;
     if isroot \<and> n = 2 then Some (None, lnode', m1)
     else do {
       cs0 \<leftarrow> aset cs i lnode';
       nd1 \<leftarrow> internalNode_RemoveAt cs0 ks n (i + 1);
       (case nd1 of
          INode cs1 ks1 n1 \<Rightarrow> do {
            lk \<leftarrow> node_LastKey m1 lnode';
            ks2 \<leftarrow> aset ks1 i lk;
            Some (Some (INode cs1 ks2 n1), lnode', m1)
          }
        | _ \<Rightarrow> None)
     }
   }"

text \<open>\<open>m.shiftLeft(node, i)\<close>\<close>
definition shiftLeft ::
  "('k::zero) node list \<Rightarrow> 'k list \<Rightarrow> nat \<Rightarrow> nat \<Rightarrow> ('k, 'v::zero) Map
     \<Rightarrow> ('k node \<times> ('k, 'v) Map) option" where
  "shiftLeft cs ks n i m = do {
     il \<leftarrow> idx_sub i 1;
     lnode \<leftarrow> aget cs il;
     rnode \<leftarrow> aget cs i;
     lsz \<leftarrow> node_Size m lnode;
     rsz \<leftarrow> node_Size m rnode;
     k \<leftarrow> idx_sub ((lsz + rsz + 1) div 2) lsz;
     (lnode', rnode', m1) \<leftarrow> node_ShiftLeft lnode rnode k m;
     cs1 \<leftarrow> aset cs il lnode';
     cs2 \<leftarrow> aset cs1 i rnode';
     lk \<leftarrow> node_LastKey m1 lnode';
     ks1 \<leftarrow> aset ks il lk;
     Some (INode cs2 ks1 n, m1)
   }"

text \<open>\<open>m.shiftRight(node, i)\<close>\<close>
definition shiftRight ::
  "('k::zero) node list \<Rightarrow> 'k list \<Rightarrow> nat \<Rightarrow> nat \<Rightarrow> ('k, 'v::zero) Map
     \<Rightarrow> ('k node \<times> ('k, 'v) Map) option" where
  "shiftRight cs ks n i m = do {
     lnode \<leftarrow> aget cs i;
     rnode \<leftarrow> aget cs (i + 1);
     lsz \<leftarrow> node_Size m lnode;
     rsz \<leftarrow> node_Size m rnode;
     k \<leftarrow> idx_sub ((lsz + rsz + 1) div 2) rsz;
     (lnode', rnode', m1) \<leftarrow> node_ShiftRight lnode rnode k m;
     cs1 \<leftarrow> aset cs i lnode';
     cs2 \<leftarrow> aset cs1 (i + 1) rnode';
     lk \<leftarrow> node_LastKey m1 lnode';
     ks1 \<leftarrow> aset ks i lk;
     Some (INode cs2 ks1 n, m1)
   }"

lemma mergeNode_depth:
  assumes "mergeNode isroot cs ks n i m = Some (ino, l', m')" "dle d cs"
  shows "depth l' \<le> d"
proof -
  from assms obtain lnode rnode where
    "aget cs i = Some lnode" "aget cs (i + 1) = Some rnode"
    "node_Merge lnode rnode m = Some (l', m')"
    by (auto simp: mergeNode_def split: Option.bind_splits if_splits node.splits)
  then show ?thesis using assms(2) node_Merge_depth dle_aget by blast
qed

lemma shiftLeft_dle:
  assumes "shiftLeft cs ks n i m = Some (INode cs' ks' n', m')" "dle d cs"
  shows "dle d cs'"
proof -
  from assms obtain il lnode rnode k lnode' rnode' cs1 where
    a: "aget cs il = Some lnode" "aget cs i = Some rnode"
    "node_ShiftLeft lnode rnode k m = Some (lnode', rnode', m')"
    and b: "aset cs il lnode' = Some cs1" "aset cs1 i rnode' = Some cs'"
    by (auto simp: shiftLeft_def split: Option.bind_splits)
  have "depth lnode' \<le> d \<and> depth rnode' \<le> d"
    using a assms(2) node_ShiftLeft_depth dle_aget by blast
  then show ?thesis using b assms(2) dle_aset by blast
qed

lemma shiftRight_dle:
  assumes "shiftRight cs ks n i m = Some (INode cs' ks' n', m')" "dle d cs"
  shows "dle d cs'"
proof -
  from assms obtain lnode rnode k lnode' rnode' cs1 where
    a: "aget cs i = Some lnode" "aget cs (i + 1) = Some rnode"
    "node_ShiftRight lnode rnode k m = Some (lnode', rnode', m')"
    and b: "aset cs i lnode' = Some cs1" "aset cs1 (i + 1) rnode' = Some cs'"
    by (auto simp: shiftRight_def split: Option.bind_splits)
  have "depth lnode' \<le> d \<and> depth rnode' \<le> d"
    using a assms(2) node_ShiftRight_depth dle_aget by blast
  then show ?thesis using b assms(2) dle_aset by blast
qed


text \<open>The leaf branch of the loop of \<open>remove\<close>.\<close>
definition leafRemove ::
  "nat \<Rightarrow> ('k::{linorder,zero}) \<Rightarrow> ('k, 'v::zero) Map
     \<Rightarrow> (Iterator \<times> 'v \<times> bool \<times> ('k, 'v) Map) option" where
  "leafRemove p key m = do {
     t \<leftarrow> get_leaf m p;
     ks \<leftarrow> leafNode_Keys t;
     let (i, _) = linearSearchOrdered ks key;
     absent \<leftarrow> (if i = l_n t then Some True
                else do { k \<leftarrow> aget (l_keys t) i; Some (key \<noteq> k) });
     if absent then do { e \<leftarrow> Map_End m; Some (e, 0, False, m) }
     else do {
       oldValue \<leftarrow> aget (l_values t) i;
       t' \<leftarrow> leafNode_RemoveAt t i;
       m1 \<leftarrow> upd_leaf m p (\<lambda>_. t');
       let m2 = m1\<lparr>m_n := m_n m1 - 1\<rparr>;
       (case l_next t' of
          Some x \<Rightarrow> if l_n t' = i then Some (\<lparr>it_node = x, it_idx = 0\<rparr>, oldValue, True, m2)
                    else Some (\<lparr>it_node = p, it_idx = int i\<rparr>, oldValue, True, m2)
        | None \<Rightarrow> Some (\<lparr>it_node = p, it_idx = int i\<rparr>, oldValue, True, m2))
     }
   }"

text \<open>The loop of \<open>remove\<close>, from the node \<open>nd\<close> on. \<open>isroot\<close> says whether \<open>nd\<close> is
  \<open>m.root\<close>. The first component of the result is the node that stands where \<open>nd\<close> stood
  (its parent's slot, or \<open>m.root\<close>) when the loop has ended.\<close>
function removeNode ::
  "bool \<Rightarrow> ('k::{linorder,zero}) node \<Rightarrow> 'k \<Rightarrow> ('k, 'v::zero) Map
     \<Rightarrow> ('k node \<times> Iterator \<times> 'v \<times> bool \<times> ('k, 'v) Map) option" where
  "removeNode isroot NilN key m = None"
| "removeNode isroot (LeafN p) key m = do {
       (it, old, ok, m1) \<leftarrow> leafRemove p key m;
       Some (LeafN p, it, old, ok, m1)
     }"
| "removeNode isroot (INode cs ks n) key m = do {
       n1 \<leftarrow> idx_sub n 1;
       sk \<leftarrow> slice ks 0 n1;
       let (i, _) = linearSearchOrdered sk key;
       descNode \<leftarrow> aget cs i;
       dsz \<leftarrow> node_Size m descNode;
       if dsz > minNodes then do {
         (d', it, old, ok, m1) \<leftarrow> removeNode False descNode key m;
         cs1 \<leftarrow> aset cs i d';
         Some (INode cs1 ks n, it, old, ok, m1)
       } else do {
         canLeft \<leftarrow> (if i + 1 < n
                      then do { c \<leftarrow> aget cs (i + 1); s \<leftarrow> node_Size m c; Some (s > minNodes) }
                      else Some False);
         if canLeft then do {
           (inode1, m1) \<leftarrow> shiftLeft cs ks n (i + 1) m;
           (case inode1 of
              INode cs1 ks1 n1' \<Rightarrow> do {
                d \<leftarrow> aget cs1 i;
                (d', it, old, ok, m2) \<leftarrow> removeNode False d key m1;
                cs2 \<leftarrow> aset cs1 i d';
                Some (INode cs2 ks1 n1', it, old, ok, m2)
              }
            | _ \<Rightarrow> None)
         } else do {
           canRight \<leftarrow> (if i > 0
                         then do { c \<leftarrow> aget cs (i - 1); s \<leftarrow> node_Size m c;
                                   Some (s > minNodes) }
                         else Some False);
           if canRight then do {
             (inode1, m1) \<leftarrow> shiftRight cs ks n (i - 1) m;
             (case inode1 of
                INode cs1 ks1 n1' \<Rightarrow> do {
                  d \<leftarrow> aget cs1 i;
                  (d', it, old, ok, m2) \<leftarrow> removeNode False d key m1;
                  cs2 \<leftarrow> aset cs1 i d';
                  Some (INode cs2 ks1 n1', it, old, ok, m2)
                }
              | _ \<Rightarrow> None)
           } else do {
             j \<leftarrow> (if i + 1 < n then Some i else idx_sub i 1);
             (ino, lnode', m1) \<leftarrow> mergeNode isroot cs ks n j m;
             (d', it, old, ok, m2) \<leftarrow> removeNode (isroot \<and> n = 2) lnode' key m1;
             (case ino of
                None \<Rightarrow> Some (d', it, old, ok, m2)
              | Some (INode cs1 ks1 n1') \<Rightarrow> do {
                  cs2 \<leftarrow> aset cs1 j d';
                  Some (INode cs2 ks1 n1', it, old, ok, m2)
                }
              | Some _ \<Rightarrow> None)
           }
         }
       }
     }"
  by pat_completeness auto
termination
proof (relation "measure (\<lambda>(isroot, nd, key, m). depth nd)", goal_cases)
  case 1
  show ?case by simp
next
  case (2 isroot cs ks n key m n1 sk x i y descNode dsz)
  define nd where "nd = INode cs ks n"
  have "depth descNode \<le> Max (insert 0 (depth ` set cs))"
    using 2 dle_aget[OF _ dle_self] by blast
  moreover have "depth nd = Suc (Max (insert 0 (depth ` set cs)))" by (simp add: nd_def)
  ultimately have "depth descNode < depth nd" by linarith
  then show ?case by (simp add: nd_def)
next
  case (3 isroot cs ks n key m n1 sk x i y descNode dsz canLeft z inode1 m1 cs1 ks1 n1' d)
  define nd where "nd = INode cs ks n"
  have "shiftLeft cs ks n (i + 1) m = Some (INode cs1 ks1 n1', m1)" using 3 by auto
  then have "dle (Max (insert 0 (depth ` set cs))) cs1"
    using dle_self by (rule shiftLeft_dle)
  moreover have "aget cs1 i = Some d" using 3 by simp
  ultimately have "depth d \<le> Max (insert 0 (depth ` set cs))" by (rule dle_aget[rotated])
  moreover have "depth nd = Suc (Max (insert 0 (depth ` set cs)))" by (simp add: nd_def)
  ultimately have "depth d < depth nd" by linarith
  then show ?case by (simp add: nd_def)
next
  case (4 isroot cs ks n key m n1 sk x i y descNode dsz canLeft canRight z inode1 m1 cs1 ks1 n1' d)
  define nd where "nd = INode cs ks n"
  have "shiftRight cs ks n (i - 1) m = Some (INode cs1 ks1 n1', m1)" using 4 by auto
  then have "dle (Max (insert 0 (depth ` set cs))) cs1"
    using dle_self by (rule shiftRight_dle)
  moreover have "aget cs1 i = Some d" using 4 by simp
  ultimately have "depth d \<le> Max (insert 0 (depth ` set cs))" by (rule dle_aget[rotated])
  moreover have "depth nd = Suc (Max (insert 0 (depth ` set cs)))" by (simp add: nd_def)
  ultimately have "depth d < depth nd" by linarith
  then show ?case by (simp add: nd_def)
next
  case (5 isroot cs ks n key m n1 sk x i y descNode dsz canLeft canRight j z ino w lnode' m1)
  define nd where "nd = INode cs ks n"
  have "mergeNode isroot cs ks n j m = Some (ino, lnode', m1)" using 5 by auto
  then have "depth lnode' \<le> Max (insert 0 (depth ` set cs))"
    using dle_self by (rule mergeNode_depth)
  moreover have "depth nd = Suc (Max (insert 0 (depth ` set cs)))" by (simp add: nd_def)
  ultimately have "depth lnode' < depth nd" by linarith
  then show ?case by (simp add: nd_def)
qed

text \<open>\<open>remove\<close>: the root collapse, then the loop.\<close>
definition Map_remove ::
  "('k::{linorder,zero}, 'v::zero) Map \<Rightarrow> 'k
     \<Rightarrow> (Iterator \<times> 'v \<times> bool \<times> ('k, 'v) Map) option" where
  "Map_remove m key = do {
     collapse \<leftarrow> (case m_root m of
         INode cs ks n \<Rightarrow>
           if n = 2 then do {
             c0 \<leftarrow> aget cs 0;
             s0 \<leftarrow> node_Size m c0;
             if s0 = minNodes then do {
               c1 \<leftarrow> aget cs 1;
               s1 \<leftarrow> node_Size m c1;
               Some (s1 = minNodes)
             } else Some False
           } else Some False
       | _ \<Rightarrow> Some False);
     if collapse then
       (case m_root m of
          INode cs ks n \<Rightarrow> do {
            (ino, lnode', m1) \<leftarrow> mergeNode True cs ks n 0 m;
            (d', it, old, ok, m2) \<leftarrow> removeNode (n = 2) lnode' key m1;
            r \<leftarrow> (case ino of
                   None \<Rightarrow> Some d'
                 | Some (INode cs1 ks1 n1) \<Rightarrow> do { cs2 \<leftarrow> aset cs1 0 d'; Some (INode cs2 ks1 n1) }
                 | Some _ \<Rightarrow> None);
            Some (it, old, ok, m2\<lparr>m_root := r\<rparr>)
          }
        | _ \<Rightarrow> None)
     else do {
       (r, it, old, ok, m1) \<leftarrow> removeNode True (m_root m) key m;
       Some (it, old, ok, m1\<lparr>m_root := r\<rparr>)
     }
   }"

definition Map_Remove ::
  "('k::{linorder,zero}, 'v::zero) Map \<Rightarrow> 'k \<Rightarrow> ('v \<times> bool \<times> ('k, 'v) Map) option" where
  "Map_Remove m key = do {
     (_, oldValue, ok, m1) \<leftarrow> Map_remove m key;
     Some (oldValue, ok, m1)
   }"

definition Map_RemoveIter ::
  "('k::{linorder,zero}, 'v::zero) Map \<Rightarrow> Iterator \<Rightarrow> (Iterator \<times> ('k, 'v) Map) option" where
  "Map_RemoveIter m it = do {
     e \<leftarrow> Iterator_End m it;
     if e then Some (it, m)
     else do {
       tnode \<leftarrow> get_leaf m (it_node it);
       if m_root m \<noteq> LeafN (it_node it) \<and> l_n tnode = minNodes then do {
         key \<leftarrow> Iterator_Key m it;
         (it', _, _, m1) \<leftarrow> Map_remove m key;
         Some (it', m1)
       } else if it_idx it < 0 then None
       else do {
         t' \<leftarrow> leafNode_RemoveAt tnode (nat (it_idx it));
         m1 \<leftarrow> upd_leaf m (it_node it) (\<lambda>_. t');
         let m2 = m1\<lparr>m_n := m_n m1 - 1\<rparr>;
         (case l_next t' of
            Some x \<Rightarrow> if int (l_n t') = it_idx it then Some (\<lparr>it_node = x, it_idx = 0\<rparr>, m2)
                      else Some (\<lparr>it_node = it_node it, it_idx = it_idx it\<rparr>, m2)
          | None \<Rightarrow> Some (\<lparr>it_node = it_node it, it_idx = it_idx it\<rparr>, m2))
       }
     }
   }"

text \<open>The loop \<open>for ; !it.End(); it = it.Next() { yield(f(it)) }\<close> of \<open>Keys\<close>,
  \<open>Values\<close> and \<open>Iterator.Seq\<close>, run to its end. It does not return when the leaf
  list is cyclic: that is the value \<open>None\<close>, like a panic of \<open>f\<close>.\<close>
partial_function (option) iterate ::
  "(('k, 'v) Map \<Rightarrow> Iterator \<Rightarrow> 'a option) \<Rightarrow> ('k, 'v) Map \<Rightarrow> Iterator \<Rightarrow> 'a list option" where
  "iterate f m it = do {
     e \<leftarrow> Iterator_End m it;
     if e then Some []
     else do {
       x \<leftarrow> f m it;
       it' \<leftarrow> Iterator_Next m it;
       rest \<leftarrow> iterate f m it';
       Some (x # rest)
     }
   }"

declare iterate.simps [code]

definition Map_Keys :: "('k, 'v) Map \<Rightarrow> 'k list option" where
  "Map_Keys m = iterate Iterator_Key m (Map_Begin m)"

definition Map_Values :: "('k, 'v) Map \<Rightarrow> 'v list option" where
  "Map_Values m = iterate Iterator_Value m (Map_Begin m)"

definition Iterator_Seq :: "('k, 'v) Map \<Rightarrow> Iterator \<Rightarrow> ('k \<times> 'v) list option" where
  "Iterator_Seq m it =
     iterate (\<lambda>m it. do { k \<leftarrow> Iterator_Key m it; v \<leftarrow> Iterator_Value m it; Some (k, v) }) m it"


text \<open>A run of \<open>Insert\<close> calls, and a run of \<open>Remove\<close> calls.\<close>
fun insertAll ::
  "('k::{linorder,zero}, 'v::zero) Map \<Rightarrow> ('k \<times> 'v) list \<Rightarrow> ('k, 'v) Map option" where
  "insertAll m [] = Some m"
| "insertAll m ((k, v) # r) = do { (_, _, _, m1) \<leftarrow> Map_Insert m k v; insertAll m1 r }"

fun removeAll_keys ::
  "('k::{linorder,zero}, 'v::zero) Map \<Rightarrow> 'k list \<Rightarrow> ('k, 'v) Map option" where
  "removeAll_keys m [] = Some m"
| "removeAll_keys m (k # r) = do { (_, _, m1) \<leftarrow> Map_Remove m k; removeAll_keys m1 r }"


section \<open>Node sizes under split and shift\<close>

text \<open>What Go's types guarantee of a node: it is not nil, its arrays have \<open>maxNodes\<close>
  slots, a leaf pointer points to a leaf.\<close>
definition slots_ok :: "('k, 'v) Map \<Rightarrow> 'k node \<Rightarrow> bool" where
  "slots_ok m nd = (case nd of
       NilN \<Rightarrow> False
     | LeafN p \<Rightarrow> (case get_leaf m p of
           None \<Rightarrow> False
         | Some t \<Rightarrow> length (l_values t) = maxNodes \<and> length (l_keys t) = maxNodes \<and>
             l_n t \<le> maxNodes \<and>
             (case l_next t of None \<Rightarrow> True | Some x \<Rightarrow> x < length (heap m)))
     | INode cs ks n \<Rightarrow> length cs = maxNodes \<and> length ks = maxNodes \<and> n \<le> maxNodes)"

definition same_kind :: "'k node \<Rightarrow> 'k node \<Rightarrow> bool" where
  "same_kind a b = (case (a, b) of
       (LeafN p, LeafN q) \<Rightarrow> p \<noteq> q
     | (INode _ _ _, INode _ _ _) \<Rightarrow> True
     | _ \<Rightarrow> False)"

lemma internalNode_Split_sizes:
  assumes "length cs = maxNodes" "length ks = maxNodes" "n \<le> maxNodes"
  shows "\<exists>lc lk rc rk. internalNode_Split cs ks n = Some (INode lc lk (n - n div 2), INode rc rk (n div 2))"
  using assms
  by (simp add: internalNode_Split_def slice_def copy_to_def clear_range_def Let_def)

lemma leafNode_Split_sizes:
  assumes "get_leaf m p = Some t" "length (l_values t) = maxNodes" "length (l_keys t) = maxNodes"
    "l_n t \<le> maxNodes" "case l_next t of None \<Rightarrow> True | Some x \<Rightarrow> x < length (heap m)"
  shows "\<exists>m'. leafNode_Split p m = Some (length (heap m), m') \<and>
     map_option l_n (get_leaf m' p) = Some (l_n t - l_n t div 2) \<and>
     map_option l_n (get_leaf m' (length (heap m))) = Some (l_n t div 2)"
proof -
  have p: "p < length (heap m)" using assms(1) by (simp add: get_leaf_def split: if_splits)
  show ?thesis
    using assms p
    by (cases "l_next t")
      (simp_all add: leafNode_Split_def get_leaf_def upd_leaf_def slice_def copy_to_def
        clear_range_def Let_def nth_append new_leaf_def)
qed


text \<open>
  C7 (as amended). The claim says that both halves of a split FULL node are NORMAL
  (size \<open>D+1 .. 2D-1\<close>). \<open>Split\<close> gives the right half \<open>n / 2\<close> entries and keeps
  \<open>n - n / 2\<close>, so a node of size \<open>2D = 32\<close> is split into two nodes of size exactly
  \<open>D = 16\<close>: both are MIN. The split of a full node always returns.
\<close>
theorem split_full_gives_min:
  assumes "slots_ok m nd" and "node_IsFull m nd = Some True"
  shows "\<exists>l r m'. node_Split nd m = Some (l, r, m') \<and>
     node_Size m' l = Some minNodes \<and> node_Size m' r = Some minNodes"
proof (cases nd)
  case NilN
  with assms show ?thesis by (simp add: slots_ok_def)
next
  case (LeafN p)
  with assms obtain t where t: "get_leaf m p = Some t" "length (l_values t) = maxNodes"
    "length (l_keys t) = maxNodes" "l_n t = maxNodes"
    "case l_next t of None \<Rightarrow> True | Some x \<Rightarrow> x < length (heap m)"
    by (auto simp: slots_ok_def node_IsFull_def node_Size_def split: option.splits)
  from leafNode_Split_sizes[OF t(1,2,3) _ t(5)] t(4) obtain m' where
    "leafNode_Split p m = Some (length (heap m), m')"
    "map_option l_n (get_leaf m' p) = Some (maxNodes - maxNodes div 2)"
    "map_option l_n (get_leaf m' (length (heap m))) = Some (maxNodes div 2)"
    by auto
  then show ?thesis
    by (simp add: LeafN node_Split_def node_Size_def maxNodes_def minNodes_def)
next
  case (INode cs ks n)
  with assms have n: "n = maxNodes" "length cs = maxNodes" "length ks = maxNodes"
    by (auto simp: slots_ok_def node_IsFull_def node_Size_def)
  from internalNode_Split_sizes[OF n(2,3), of n] n(1) show ?thesis
    by (auto simp: INode node_Split_def node_Size_def maxNodes_def minNodes_def)
qed


definition full_leaf_map :: "(nat, nat) Map" where
  "full_leaf_map = \<lparr>m_root = LeafN 0, m_front = 0, m_back = 0, m_n = 32,
     heap = [\<lparr>l_next = None, l_prev = None, l_values = map (\<lambda>i. i + 100) [0..<32],
              l_keys = [0..<32], l_n = 32\<rparr>]\<rparr>"

lemma full_leaf_map_reached:
  "insertAll New (map (\<lambda>i. (i, i + 100)) [0..<32]) = Some full_leaf_map"
  unfolding full_leaf_map_def by code_simp

lemma full_leaf_hyps:
  "slots_ok full_leaf_map (LeafN 0)" "node_IsFull full_leaf_map (LeafN 0) = Some True"
  unfolding full_leaf_map_def by code_simp+

theorem split_full_gives_min_witness:
  "slots_ok full_leaf_map (LeafN 0) \<and> node_IsFull full_leaf_map (LeafN 0) = Some True \<and>
   (\<exists>l r m'. node_Split (LeafN 0) full_leaf_map = Some (l, r, m') \<and>
      node_Size m' l = Some minNodes \<and> node_Size m' r = Some minNodes)"
  using split_full_gives_min[OF full_leaf_hyps] full_leaf_hyps by simp

text \<open>C7 as stated fails: the root leaf after 32 insertions is full, and its two halves
  have 16 entries each, which is not in the range 17 .. 31.\<close>

theorem split_full_normal_counterexample:
  "node_IsFull full_leaf_map (LeafN 0) = Some True \<and>
   (case node_Split (LeafN 0) full_leaf_map of
      None \<Rightarrow> False
    | Some (l, r, m') \<Rightarrow> node_Size m' l = Some 16 \<and> node_Size m' r = Some 16) \<and>
   \<not> (keyDegr + 1 \<le> (16::nat))"
  unfolding full_leaf_map_def by code_simp

lemma leafNode_ShiftLeft_sizes:
  assumes "get_leaf m p = Some t" "get_leaf m q = Some r" "p \<noteq> q"
    "length (l_values t) = maxNodes" "length (l_keys t) = maxNodes" "l_n t \<le> maxNodes"
    "length (l_values r) = maxNodes" "length (l_keys r) = maxNodes" "l_n r \<le> maxNodes"
    "k \<le> l_n r"
  shows "\<exists>m'. leafNode_ShiftLeft p q k m = Some m' \<and>
     map_option l_n (get_leaf m' p) = Some (l_n t + k) \<and>
     map_option l_n (get_leaf m' q) = Some (l_n r - k) \<and>
     map_option (\<lambda>l. length (l_keys l)) (get_leaf m' p) = Some maxNodes"
proof -
  have p: "p < length (heap m)" "q < length (heap m)" "heap m ! p = t" "heap m ! q = r"
    using assms(1,2) by (auto simp: get_leaf_def split: if_splits)
  show ?thesis
    using assms(3-) p
    by (simp add: leafNode_ShiftLeft_def get_leaf_def upd_leaf_def slice_def copy_to_def
        clear_range_def idx_sub_def Let_def)
qed

lemma internalNode_ShiftLeft_sizes:
  assumes "length cs = maxNodes" "length ks = maxNodes" "n \<le> maxNodes"
    "length rcs = maxNodes" "length rks = maxNodes" "rn \<le> maxNodes" "k \<le> rn"
  shows "\<exists>a b c d. internalNode_ShiftLeft cs ks n rcs rks rn k
      = Some (INode a b (n + k), INode c d (rn - k)) \<and> length b = maxNodes"
  using assms
  by (simp add: internalNode_ShiftLeft_def slice_def copy_to_def clear_range_def idx_sub_def)

lemma shift_amount:
  fixes lsz rsz :: nat
  assumes "lsz \<le> rsz"
  shows "lsz \<le> (lsz + rsz + 1) div 2" "(lsz + rsz + 1) div 2 - lsz \<le> rsz"
    "lsz + ((lsz + rsz + 1) div 2 - lsz) = (lsz + rsz + 1) div 2"
    "rsz - ((lsz + rsz + 1) div 2 - lsz) = (lsz + rsz) div 2"
  using assms by linarith+

lemma node_ShiftLeft_sizes:
  assumes ok: "slots_ok m l" "slots_ok m r" "same_kind l r"
    and sz: "node_Size m l = Some lsz" "node_Size m r = Some rsz" "k \<le> rsz" "0 < lsz + k"
      "lsz + k \<le> maxNodes"
  shows "\<exists>l' r' m' lk. node_ShiftLeft l r k m = Some (l', r', m') \<and>
     node_Size m' l' = Some (lsz + k) \<and> node_Size m' r' = Some (rsz - k) \<and>
     node_LastKey m' l' = Some lk"
proof (cases l)
  case NilN
  with ok show ?thesis by (simp add: slots_ok_def)
next
  case (LeafN p)
  with ok(3) obtain q where q: "r = LeafN q" "p \<noteq> q"
    by (auto simp: same_kind_def split: node.splits)
  from ok(1,2) sz(1,2) LeafN q obtain t u where
    t: "get_leaf m p = Some t" "length (l_values t) = maxNodes" "length (l_keys t) = maxNodes"
       "l_n t \<le> maxNodes" "l_n t = lsz"
    and u: "get_leaf m q = Some u" "length (l_values u) = maxNodes" "length (l_keys u) = maxNodes"
       "l_n u \<le> maxNodes" "l_n u = rsz"
    by (auto simp: slots_ok_def node_Size_def split: option.splits)
  from leafNode_ShiftLeft_sizes[OF t(1) u(1) q(2) t(2,3,4) u(2,3,4), of k] sz(3) u(5)
  obtain m' where m': "leafNode_ShiftLeft p q k m = Some m'"
     "map_option l_n (get_leaf m' p) = Some (l_n t + k)"
     "map_option l_n (get_leaf m' q) = Some (l_n u - k)"
     "map_option (\<lambda>l. length (l_keys l)) (get_leaf m' p) = Some maxNodes"
    by auto
  then obtain t' where t': "get_leaf m' p = Some t'" "l_n t' = lsz + k" "length (l_keys t') = maxNodes"
    using t(5) by auto
  have "\<exists>lk. leafNode_LastKey t' = Some lk"
    using t' sz(4,5) by (auto simp: leafNode_LastKey_def idx_sub_def aget_def)
  then show ?thesis using m' t' t(5) u(5)
    by (auto simp: LeafN q node_ShiftLeft_def node_Size_def node_LastKey_def)
next
  case (INode cs ks n)
  with ok(3) obtain rcs rks rn where r: "r = INode rcs rks rn"
    by (auto simp: same_kind_def split: node.splits)
  from ok(1,2) sz INode r have a: "length cs = maxNodes" "length ks = maxNodes" "n \<le> maxNodes"
    "length rcs = maxNodes" "length rks = maxNodes" "rn \<le> maxNodes" "k \<le> rn" "n = lsz" "rn = rsz"
    by (auto simp: slots_ok_def node_Size_def)
  from internalNode_ShiftLeft_sizes[OF a(1-7)] obtain c1 k1 c2 k2 where
    "internalNode_ShiftLeft cs ks n rcs rks rn k = Some (INode c1 k1 (n + k), INode c2 k2 (rn - k))"
    "length k1 = maxNodes" by blast
  then show ?thesis
    using a(8,9) sz(4,5)
    by (auto simp: INode r node_ShiftLeft_def node_Size_def node_LastKey_def idx_sub_def aget_def)
qed


lemma slots_ok_size_le: "slots_ok m nd \<Longrightarrow> node_Size m nd = Some sz \<Longrightarrow> sz \<le> maxNodes"
  by (auto simp: slots_ok_def node_Size_def split: node.splits option.splits)


text \<open>
  C8 (as amended). \<open>shiftLeft\<close> on the siblings \<open>child[i-1]\<close> (size \<open>Lsz\<close>, at most
  \<open>D\<close>) and \<open>child[i]\<close> (size \<open>Rsz\<close>, more than \<open>D\<close>) returns, the left sibling ends with
  \<open>(Lsz + Rsz + 1) / 2\<close> entries in integer division, that is the ceiling of
  \<open>(Lsz + Rsz) / 2\<close>, the right one with the floor, and the two sizes differ by at most 1
  with the larger one on the left (the destination).
\<close>
theorem shiftLeft_sizes:
  assumes len: "length cs = maxNodes" "length ks = maxNodes" and i: "0 < i" "i < maxNodes"
    and ok: "slots_ok m (cs ! (i - 1))" "slots_ok m (cs ! i)" "same_kind (cs ! (i - 1)) (cs ! i)"
    and sz: "node_Size m (cs ! (i - 1)) = Some lsz" "node_Size m (cs ! i) = Some rsz"
    and guard: "lsz \<le> minNodes" "minNodes < rsz"
  shows "\<exists>cs' ks' m'. shiftLeft cs ks n i m = Some (INode cs' ks' n, m') \<and>
      node_Size m' (cs' ! (i - 1)) = Some ((lsz + rsz + 1) div 2) \<and>
      node_Size m' (cs' ! i) = Some ((lsz + rsz) div 2) \<and>
      (lsz + rsz + 1) div 2 + (lsz + rsz) div 2 = lsz + rsz \<and>
      (lsz + rsz) div 2 \<le> (lsz + rsz + 1) div 2 \<and>
      (lsz + rsz + 1) div 2 \<le> (lsz + rsz) div 2 + 1"
proof -
  define k where "k = (lsz + rsz + 1) div 2 - lsz"
  have le: "lsz \<le> rsz" using guard by simp
  have rmax: "rsz \<le> maxNodes" using ok(2) sz(2) by (rule slots_ok_size_le)
  have k: "k \<le> rsz" "0 < lsz + k" "lsz + k \<le> maxNodes"
    "lsz + k = (lsz + rsz + 1) div 2" "rsz - k = (lsz + rsz) div 2"
    using le guard rmax unfolding k_def minNodes_def maxNodes_def keyDegr_def by linarith+
  from node_ShiftLeft_sizes[OF ok sz k(1,2,3)] obtain l' r' m' lk where
    sh: "node_ShiftLeft (cs ! (i - 1)) (cs ! i) k m = Some (l', r', m')"
    "node_Size m' l' = Some (lsz + k)" "node_Size m' r' = Some (rsz - k)"
    "node_LastKey m' l' = Some lk"
    by blast
  have i1: "i - 1 < length cs" "i < length cs" "i - 1 < length ks" "i - 1 \<noteq> i"
    using i len by auto
  have "shiftLeft cs ks n i m
      = Some (INode (cs[i - 1 := l', i := r']) (ks[i - 1 := lk]) n, m')"
    using i1 i(1) sz sh le
    by (simp add: shiftLeft_def idx_sub_def aget_def aset_def k_def)
  moreover have "cs[i - 1 := l', i := r'] ! (i - 1) = l'" "cs[i - 1 := l', i := r'] ! i = r'"
    using i1 by simp_all
  ultimately show ?thesis using sh(2,3) k(4,5) by (intro exI[of _ "cs[i - 1 := l', i := r']"] exI[of _ "ks[i - 1 := lk]"] exI[of _ m']) (simp; linarith)
qed

definition two_leaf_map :: "(nat, nat) Map" where
  "two_leaf_map = \<lparr>m_root = INode ([LeafN 0, LeafN 1] @ replicate 30 NilN)
        ([15, 33] @ replicate 30 0) 2,
     m_front = 0, m_back = 1, m_n = 34,
     heap = [\<lparr>l_next = Some 1, l_prev = None,
               l_values = map (\<lambda>i. i + 100) [0..<16] @ replicate 16 0,
               l_keys = [0..<16] @ replicate 16 0, l_n = 16\<rparr>,
             \<lparr>l_next = None, l_prev = Some 0,
               l_values = map (\<lambda>i. i + 100) [16..<34] @ replicate 14 0,
               l_keys = [16..<34] @ replicate 14 0, l_n = 18\<rparr>]\<rparr>"

lemma two_leaf_map_reached:
  "insertAll New (map (\<lambda>i. (i, i + 100)) [0..<34]) = Some two_leaf_map"
  unfolding two_leaf_map_def by code_simp

definition two_leaf_cs :: "nat node list" where
  "two_leaf_cs = [LeafN 0, LeafN 1] @ replicate 30 NilN"

definition two_leaf_ks :: "nat list" where
  "two_leaf_ks = [15, 33] @ replicate 30 0"

lemma two_leaf_hyps:
  "length two_leaf_cs = maxNodes" "length two_leaf_ks = maxNodes" "(0::nat) < 1" "1 < maxNodes"
  "slots_ok two_leaf_map (two_leaf_cs ! (1 - 1))" "slots_ok two_leaf_map (two_leaf_cs ! 1)"
  "same_kind (two_leaf_cs ! (1 - 1)) (two_leaf_cs ! 1)"
  "node_Size two_leaf_map (two_leaf_cs ! (1 - 1)) = Some 16"
  "node_Size two_leaf_map (two_leaf_cs ! 1) = Some 18"
  "(16::nat) \<le> minNodes" "minNodes < (18::nat)"
  unfolding two_leaf_map_def two_leaf_cs_def two_leaf_ks_def by code_simp+

theorem shiftLeft_sizes_witness:
  "slots_ok two_leaf_map (two_leaf_cs ! 0) \<and> slots_ok two_leaf_map (two_leaf_cs ! 1) \<and>
   node_Size two_leaf_map (two_leaf_cs ! 0) = Some 16 \<and>
   node_Size two_leaf_map (two_leaf_cs ! 1) = Some 18 \<and>
   (\<exists>cs' ks' m'. shiftLeft two_leaf_cs two_leaf_ks 2 1 two_leaf_map = Some (INode cs' ks' 2, m') \<and>
      node_Size m' (cs' ! 0) = Some 17 \<and> node_Size m' (cs' ! 1) = Some 17)"
  using shiftLeft_sizes[OF two_leaf_hyps, of 2] two_leaf_hyps by simp


text \<open>C8 as stated fails: the claim puts the ceiling around \<open>(Lsz + Rsz + 1) / 2\<close>. With
  \<open>Lsz = 16\<close> and \<open>Rsz = 18\<close> (the map after inserting 0 .. 33) the left sibling ends with
  17 entries, and the ceiling of 35 / 2 is 18.\<close>

theorem shiftLeft_ceiling_counterexample:
  "node_Size two_leaf_map (two_leaf_cs ! 0) = Some 16 \<and>
   node_Size two_leaf_map (two_leaf_cs ! 1) = Some 18 \<and>
   (case shiftLeft two_leaf_cs two_leaf_ks 2 1 two_leaf_map of
      Some (INode cs' ks' n', m') \<Rightarrow> node_Size m' (cs' ! 0) = Some 17
    | _ \<Rightarrow> False) \<and>
   int 17 \<noteq> \<lceil>real (16 + 18 + 1) / 2\<rceil>"
proof -
  have a: "node_Size two_leaf_map (two_leaf_cs ! 0) = Some 16"
    "node_Size two_leaf_map (two_leaf_cs ! 1) = Some 18"
    "(case shiftLeft two_leaf_cs two_leaf_ks 2 1 two_leaf_map of
      Some (INode cs' ks' n', m') \<Rightarrow> node_Size m' (cs' ! 0) = Some 17
    | _ \<Rightarrow> False)"
    unfolding two_leaf_map_def two_leaf_cs_def two_leaf_ks_def by code_simp+
  have b: "int 17 \<noteq> \<lceil>real (16 + 18 + 1) / 2\<rceil>" by simp
  from a b show ?thesis by blast
qed


section \<open>Find and LowerBound write nothing\<close>

lemma findNode_frame: "findNode nd key m = Some (r, m') \<Longrightarrow> m' = m"
proof (induction nd key m rule: findNode.induct)
  case (1 key m)
  then show ?case by simp
next
  case (2 p key m)
  then show ?case by (auto split: Option.bind_splits if_splits prod.splits)
next
  case (3 cs ks n key m)
  from 3(2) obtain n1 sk i b c where
    a: "idx_sub n 1 = Some n1" "slice ks 0 n1 = Some sk" "linearSearchOrdered sk key = (i, b)"
    "aget cs i = Some c" "findNode c key m = Some (r, m')"
    by (auto split: Option.bind_splits prod.splits)
  from 3(1)[OF a(1) a(2) a(3)[symmetric] refl a(4) a(5)] show ?case .
qed

lemma lowerBoundNode_frame: "lowerBoundNode nd key m = Some (r, m') \<Longrightarrow> m' = m"
proof (induction nd key m rule: lowerBoundNode.induct)
  case (1 key m)
  then show ?case by simp
next
  case (2 p key m)
  then show ?case by (auto split: Option.bind_splits if_splits prod.splits option.splits)
next
  case (3 cs ks n key m)
  from 3(2) obtain n1 sk i b c where
    a: "idx_sub n 1 = Some n1" "slice ks 0 n1 = Some sk" "linearSearchOrdered sk key = (i, b)"
    "aget cs i = Some c" "lowerBoundNode c key m = Some (r, m')"
    by (auto split: Option.bind_splits prod.splits)
  from 3(1)[OF a(1) a(2) a(3)[symmetric] refl a(4) a(5)] show ?case .
qed


text \<open>
  C10. \<open>Find\<close> and \<open>LowerBound\<close> leave the map as it was: root, front, back, count and
  every leaf in the store.
\<close>
theorem Find_LowerBound_frame:
  "(case Map_Find m key of None \<Rightarrow> True | Some (r, m') \<Rightarrow> m' = m) \<and>
   (case Map_LowerBound m key of None \<Rightarrow> True | Some (it, m') \<Rightarrow> m' = m)"
  using findNode_frame[of "m_root m" key m] lowerBoundNode_frame[of "m_root m" key m]
  by (auto simp: Map_Find_def Map_LowerBound_def split: option.splits)


end
